theory Spec2Isabelle
  imports Complex_Main "HOL-Library.List_Lexorder" "HOL-Library.Char_ord"
begin

section \<open>Tables\<close>

text \<open>
  The program (\<open>app.py\<close>) works on pandas data frames. A frame is modelled by its column
  labels, each with the dtype pandas keeps for the column, and its rows. A cell is a
  missing value (NaN or NaT), a number, a Python string or a timestamp (nanoseconds since
  the epoch, as pandas stores \<open>datetime64[ns]\<close>). A number cell carries the value that
  pandas holds; the cleaner does no arithmetic on it, and reading a string as a number is
  a parameter of the model. Infinite values are outside the model.
\<close>

datatype cell = NA | Num rat | Str string | Date int

datatype dtype = Numeric | Object | Datetime

datatype error = KeyError "string list" | ValueError string | AttributeError string

record dataframe =
  columns :: "(string \<times> dtype) list"
  rows :: "cell list list"

text \<open>
  The value-level conversions of pandas are parameters of the model: what
  \<open>pd.to_datetime(col, dayfirst=True, errors='coerce')\<close> makes of one value of the column
  \<open>col\<close> (\<open>None\<close> is NaT; pandas may infer one format from the whole column, so the
  column is an argument), what \<open>pd.to_numeric(_, errors='coerce')\<close> makes of one string
  (\<open>None\<close> is NaN), and Python's \<open>str\<close> of a value that is not a string.
\<close>

record coercion =
  parse_datetime :: "cell list \<Rightarrow> cell \<Rightarrow> int option"
  parse_numeric :: "string \<Rightarrow> rat option"
  py_str :: "cell \<Rightarrow> string"

subsection \<open>Frame primitives\<close>

text \<open>\<open>label in df.columns\<close>, with the position of the column.\<close>

fun col_pos :: "string \<Rightarrow> (string \<times> dtype) list \<Rightarrow> nat option" where
  "col_pos c [] = None"
| "col_pos c (p # ps) = (if fst p = c then Some 0 else map_option Suc (col_pos c ps))"

fun map_at :: "nat \<Rightarrow> ('a \<Rightarrow> 'a) \<Rightarrow> 'a list \<Rightarrow> 'a list" where
  "map_at j f [] = []"
| "map_at 0 f (x # xs) = f x # xs"
| "map_at (Suc j) f (x # xs) = x # map_at j f xs"

definition cell_at :: "nat \<Rightarrow> cell list \<Rightarrow> cell" where
  "cell_at j r = (if j < length r then r ! j else NA)"

definition get_column :: "nat \<Rightarrow> dataframe \<Rightarrow> cell list" where
  "get_column j df = map (cell_at j) (rows df)"

definition dtype_at :: "nat \<Rightarrow> dataframe \<Rightarrow> dtype option" where
  "dtype_at j df = (if j < length (columns df) then Some (snd (columns df ! j)) else None)"

text \<open>\<open>df[label] = f(df[label])\<close> for a cell-wise \<open>f\<close> whose result has dtype \<open>t\<close>.\<close>

definition assign_column :: "nat \<Rightarrow> dtype \<Rightarrow> (cell \<Rightarrow> cell) \<Rightarrow> dataframe \<Rightarrow> dataframe" where
  "assign_column j t f df =
     df\<lparr>columns := map_at j (\<lambda>p. (fst p, t)) (columns df),
        rows := map (map_at j f) (rows df)\<rparr>"

text \<open>
  \<open>df.drop_duplicates()\<close> keeps the first occurrence of every row; missing values
  compare equal to each other there.
\<close>

fun drop_dups_from :: "'a list \<Rightarrow> 'a list \<Rightarrow> 'a list" where
  "drop_dups_from seen [] = []"
| "drop_dups_from seen (x # xs) =
     (if x \<in> set seen then drop_dups_from seen xs else x # drop_dups_from (x # seen) xs)"

definition drop_duplicates :: "dataframe \<Rightarrow> dataframe" where
  "drop_duplicates df = df\<lparr>rows := drop_dups_from [] (rows df)\<rparr>"

text \<open>
  \<open>pd.to_datetime(df[label], dayfirst=True, errors='coerce')\<close>: timestamps and missing
  values stay, every other value is parsed or becomes NaT.
\<close>

definition to_datetime_cell :: "coercion \<Rightarrow> cell list \<Rightarrow> cell \<Rightarrow> cell" where
  "to_datetime_cell P col c =
     (case c of
        NA \<Rightarrow> NA
      | Date t \<Rightarrow> Date t
      | _ \<Rightarrow> (case parse_datetime P col c of None \<Rightarrow> NA | Some t \<Rightarrow> Date t))"

text \<open>\<open>df[col].astype(str)\<close> and \<open>.str.replace(r'[$,]', '', regex=True)\<close>.\<close>

definition astype_str :: "coercion \<Rightarrow> cell \<Rightarrow> cell" where
  "astype_str P c = (case c of Str s \<Rightarrow> Str s | NA \<Rightarrow> Str ''nan'' | _ \<Rightarrow> Str (py_str P c))"

definition str_replace_currency :: "cell \<Rightarrow> cell" where
  "str_replace_currency c =
     (case c of
        Str s \<Rightarrow> Str (filter (\<lambda>ch. ch \<noteq> CHR ''$'' \<and> ch \<noteq> CHR '','') s)
      | _ \<Rightarrow> c)"

text \<open>
  \<open>pd.to_numeric(df[col], errors='coerce')\<close> on a column of dtype \<open>t\<close>. A datetime
  column is read as its 64-bit integers, in which NaT is the least integer: it becomes a
  number, not a missing value.
\<close>

definition to_numeric_cell :: "coercion \<Rightarrow> dtype option \<Rightarrow> cell \<Rightarrow> cell" where
  "to_numeric_cell P t c =
     (case c of
        NA \<Rightarrow> (if t = Some Datetime then Num (- 9223372036854775808) else NA)
      | Num x \<Rightarrow> Num x
      | Str s \<Rightarrow> (case parse_numeric P s of None \<Rightarrow> NA | Some x \<Rightarrow> Num x)
      | Date d \<Rightarrow> Num (of_int d))"

text \<open>
  \<open>df.dropna(subset=labels)\<close>: a label that is not a column raises \<open>KeyError\<close> with the
  missing labels; otherwise the rows with a missing value in one of the columns go.
\<close>

definition dropna :: "string list \<Rightarrow> dataframe \<Rightarrow> error + dataframe" where
  "dropna labels df =
     (let missing = filter (\<lambda>c. col_pos c (columns df) = None) labels;
          idxs = List.map_filter (\<lambda>c. col_pos c (columns df)) labels
      in if missing \<noteq> [] then Inl (KeyError missing)
         else Inr (df\<lparr>rows := filter (\<lambda>r. list_all (\<lambda>j. cell_at j r \<noteq> NA) idxs) (rows df)\<rparr>))"

section \<open>The cleaner: \<open>clean_data\<close>\<close>

text \<open>
  How often a label occurs among the columns. With a label that occurs twice,
  \<open>df[label]\<close> is a frame of two columns, not a column.
\<close>

definition label_count :: "string \<Rightarrow> dataframe \<Rightarrow> nat" where
  "label_count c df = length (filter (\<lambda>p. fst p = c) (columns df))"

text \<open>
  Step 2 of \<open>clean_data\<close>: the date column, when the frame has one. Of a frame with a
  repeated label \<open>pd.to_datetime\<close> raises \<open>ValueError\<close>.
\<close>

definition convert_order_date :: "coercion \<Rightarrow> dataframe \<Rightarrow> error + dataframe" where
  "convert_order_date P df =
     (case col_pos ''OrderDate'' (columns df) of
        None \<Rightarrow> Inr df
      | Some j \<Rightarrow>
          if 1 < label_count ''OrderDate'' df
          then Inl (ValueError ''cannot assemble with duplicate keys'')
          else Inr (assign_column j Datetime (to_datetime_cell P (get_column j df)) df))"

text \<open>
  Step 3 of \<open>clean_data\<close>, the body of the loop over \<open>numeric_cols\<close>. With a repeated
  label \<open>df[col].dtype\<close> raises \<open>AttributeError\<close>: a frame has no attribute \<open>dtype\<close>.
\<close>

definition ensure_numeric :: "coercion \<Rightarrow> string \<Rightarrow> dataframe \<Rightarrow> error + dataframe" where
  "ensure_numeric P col df =
     (case col_pos col (columns df) of
        None \<Rightarrow> Inr df
      | Some j \<Rightarrow>
          if 1 < label_count col df then Inl (AttributeError ''dtype'')
          else
            (let df' = (if dtype_at j df = Some Object
                        then assign_column j Object (\<lambda>c. str_replace_currency (astype_str P c)) df
                        else df)
             in Inr (assign_column j Numeric (to_numeric_cell P (dtype_at j df')) df')))"

definition numeric_cols :: "string list" where
  "numeric_cols = [''TotalSales'', ''Quantity'']"

fun ensure_numeric_cols :: "coercion \<Rightarrow> string list \<Rightarrow> dataframe \<Rightarrow> error + dataframe" where
  "ensure_numeric_cols P [] df = Inr df"
| "ensure_numeric_cols P (col # cols) df =
     (case ensure_numeric P col df of
        Inl e \<Rightarrow> Inl e
      | Inr df' \<Rightarrow> ensure_numeric_cols P cols df')"

definition clean_data :: "coercion \<Rightarrow> dataframe \<Rightarrow> error + dataframe" where
  "clean_data P df =
     (case convert_order_date P (drop_duplicates df) of
        Inl e \<Rightarrow> Inl e
      | Inr df2 \<Rightarrow>
          (case ensure_numeric_cols P numeric_cols df2 of
             Inl e \<Rightarrow> Inl e
           | Inr df3 \<Rightarrow> dropna [''OrderDate'', ''TotalSales''] df3))"

text \<open>\<open>clean_data(clean_data(df))\<close>: the second call runs when the first returns.\<close>

definition clean_twice :: "coercion \<Rightarrow> dataframe \<Rightarrow> error + dataframe" where
  "clean_twice P df = (case clean_data P df of Inl e \<Rightarrow> Inl e | Inr d \<Rightarrow> clean_data P d)"


subsection \<open>The cleaner, row by row\<close>

text \<open>
  The definitions of this subsection are not functions of the program. They name what steps
  2 and 3 of \<open>clean_data\<close> do to one cell and to one row, and the shape of a cleaned
  frame, for the statements below.
\<close>

text \<open>The value step 3 leaves in a cell of a numeric column whose dtype was \<open>t\<close>.\<close>

definition numeric_value :: "coercion \<Rightarrow> dtype option \<Rightarrow> cell \<Rightarrow> cell" where
  "numeric_value P t c =
     to_numeric_cell P t (if t = Some Object then str_replace_currency (astype_str P c) else c)"

text \<open>Steps 2 and 3 where they do not raise: the frames they return.\<close>

definition order_date_converted :: "coercion \<Rightarrow> dataframe \<Rightarrow> dataframe" where
  "order_date_converted P df =
     (case col_pos ''OrderDate'' (columns df) of
        None \<Rightarrow> df
      | Some j \<Rightarrow> assign_column j Datetime (to_datetime_cell P (get_column j df)) df)"

definition numeric_ensured :: "coercion \<Rightarrow> string \<Rightarrow> dataframe \<Rightarrow> dataframe" where
  "numeric_ensured P col df =
     (case col_pos col (columns df) of
        None \<Rightarrow> df
      | Some j \<Rightarrow>
          (let df' = (if dtype_at j df = Some Object
                      then assign_column j Object (\<lambda>c. str_replace_currency (astype_str P c)) df
                      else df)
           in assign_column j Numeric (to_numeric_cell P (dtype_at j df')) df'))"

text \<open>None of the three labels that \<open>clean_data\<close> reads occurs twice.\<close>

definition labels_ok :: "dataframe \<Rightarrow> bool" where
  "labels_ok df \<longleftrightarrow> list_all (\<lambda>c. label_count c df \<le> 1) (''OrderDate'' # numeric_cols)"

definition map_at_opt :: "nat option \<Rightarrow> ('a \<Rightarrow> 'a) \<Rightarrow> 'a list \<Rightarrow> 'a list" where
  "map_at_opt jo f r = (case jo of None \<Rightarrow> r | Some j \<Rightarrow> map_at j f r)"

text \<open>Steps 2 and 3 together, and their effect on one row of the frame \<open>df\<close>.\<close>

definition coerce_columns :: "coercion \<Rightarrow> dataframe \<Rightarrow> dataframe" where
  "coerce_columns P df = fold (numeric_ensured P) numeric_cols (order_date_converted P df)"

definition clean_row :: "coercion \<Rightarrow> dataframe \<Rightarrow> cell list \<Rightarrow> cell list" where
  "clean_row P df r =
     (let jd = col_pos ''OrderDate'' (columns df);
          js = col_pos ''TotalSales'' (columns df);
          jq = col_pos ''Quantity'' (columns df)
      in map_at_opt jq (numeric_value P (dtype_at (the jq) df))
           (map_at_opt js (numeric_value P (dtype_at (the js) df))
              (map_at_opt jd (to_datetime_cell P (get_column (the jd) df)) r)))"

text \<open>A parsed timestamp, a number.\<close>

fun is_date :: "cell \<Rightarrow> bool" where
  "is_date (Date t) = True"
| "is_date c = False"

fun is_num :: "cell \<Rightarrow> bool" where
  "is_num (Num x) = True"
| "is_num c = False"

text \<open>
  The shape of a frame that \<open>clean_data\<close> returns: a datetime column of timestamps, a
  numeric sales column of numbers, and a numeric quantity column when there is one.
\<close>

definition clean_shape :: "dataframe \<Rightarrow> bool" where
  "clean_shape d \<longleftrightarrow>
     (\<exists>jd js. col_pos ''OrderDate'' (columns d) = Some jd \<and> col_pos ''TotalSales'' (columns d) = Some js \<and>
        dtype_at jd d = Some Datetime \<and> dtype_at js d = Some Numeric \<and>
        (\<forall>r\<in>set (rows d). is_date (cell_at jd r) \<and> is_num (cell_at js r))) \<and>
     (\<forall>jq. col_pos ''Quantity'' (columns d) = Some jq \<longrightarrow>
        dtype_at jq d = Some Numeric \<and> (\<forall>r\<in>set (rows d). cell_at jq r = NA \<or> is_num (cell_at jq r)))"


section \<open>The segmenter: the RFM block of the dashboard\<close>

text \<open>
  The RFM block reads three columns of \<open>filtered_df\<close>. After cleaning, \<open>OrderDate\<close> is a
  timestamp and \<open>TotalSales\<close> a number in every row; \<open>CustomerID\<close> is not touched by the
  cleaner and may be missing (\<open>None\<close>), and \<open>groupby\<close> leaves such rows out of every
  group. The customer identifier is any ordered type: \<open>groupby\<close> sorts the groups by it.

  The sales amounts are whole numbers, as the ones of \<open>generate_mock_data\<close> are (a price
  times a quantity) and as an integer column of a file is. On whole numbers below
  \<open>2 ^ 50\<close> in absolute value every sum and every quantile that pandas computes in 64-bit
  arithmetic is exact, and is the number computed here; a column of fractional amounts
  is summed and interpolated with rounding, which is outside the model.
\<close>

record 'k txn =
  order_date :: int
  customer_id :: "'k option"
  total_sales :: int

text \<open>One row of the frame \<open>rfm\<close> after the aggregation, and after the scoring.\<close>

record 'k rfm_row =
  customer :: 'k
  recency :: int
  frequency :: nat
  monetary :: int

record 'k rfm_scored =
  rfm :: "'k rfm_row"
  r_score :: "char option"
  f_score :: "char option"
  m_score :: "char option"
  rfm_score :: string
  segment :: string

definition ns_per_day :: int where
  "ns_per_day = 86400000000000"

text \<open>\<open>filtered_df['OrderDate'].max() + timedelta(days=1)\<close>.\<close>

definition snapshot_date :: "'k txn list \<Rightarrow> int" where
  "snapshot_date df = Max (set (map order_date df)) + ns_per_day"

text \<open>
  \<open>filtered_df.groupby('CustomerID').agg(...)\<close>: one row per customer identifier, in
  ascending order of the identifier; \<open>.days\<close> of a time difference rounds down to whole
  days.
\<close>

definition group_keys :: "('k::linorder) txn list \<Rightarrow> 'k list" where
  "group_keys df = sort (remdups (List.map_filter customer_id df))"

definition group_rows :: "'k \<Rightarrow> 'k txn list \<Rightarrow> 'k txn list" where
  "group_rows k df = filter (\<lambda>t. customer_id t = Some k) df"

definition rfm_metrics :: "('k::linorder) txn list \<Rightarrow> 'k rfm_row list" where
  "rfm_metrics df =
     map (\<lambda>k. let g = group_rows k df
              in \<lparr>customer = k,
                  recency = (snapshot_date df - Max (set (map order_date g))) div ns_per_day,
                  frequency = length g,
                  monetary = sum_list (map total_sales g)\<rparr>)
       (group_keys df)"

text \<open>The column \<open>rfm['Recency']\<close>, as the numbers that \<open>qcut\<close> bins.\<close>

definition recencies :: "('k::linorder) txn list \<Rightarrow> rat list" where
  "recencies df = map (\<lambda>r. of_int (recency r)) (rfm_metrics df)"

subsection \<open>\<open>pd.qcut(values, 4, labels=...)\<close>\<close>

text \<open>
  The bin edges are the quantiles 0, 1/4, 1/2, 3/4 and 1 of the values, with linear
  interpolation between the two neighbours in the sorted values: the quantile \<open>j/4\<close> of
  \<open>n\<close> values sits at position \<open>j * (n - 1) / 4\<close>.
\<close>

definition quantile_edge :: "rat list \<Rightarrow> nat \<Rightarrow> rat" where
  "quantile_edge s j =
     (let pos = j * (length s - 1);
          lo = pos div 4;
          hi = min (lo + 1) (length s - 1);
          g = of_nat (pos mod 4) / 4
      in s ! lo + (s ! hi - s ! lo) * g)"

definition quartile_bins :: "rat list \<Rightarrow> rat list" where
  "quartile_bins xs = map (quantile_edge (sort xs)) [0..<5]"

text \<open>
  \<open>bins.searchsorted(x, side='left')\<close> counts the edges below \<open>x\<close>; with
  \<open>include_lowest\<close> the values equal to the first edge go to the first bin.
\<close>

definition searchsorted_left :: "rat list \<Rightarrow> rat \<Rightarrow> nat" where
  "searchsorted_left bins x = length (filter (\<lambda>b. b < x) bins)"

definition bin_id :: "rat list \<Rightarrow> rat \<Rightarrow> nat" where
  "bin_id bins x = (if x = bins ! 0 then 1 else searchsorted_left bins x)"

text \<open>
  \<open>qcut\<close> raises \<open>ValueError\<close> when two edges are equal (\<open>duplicates='raise'\<close> is the
  default; the edges of no values at all are five NaN) and when the number of labels is
  not the number of bins. A value outside all bins gets no label (NaN).
\<close>

definition qcut :: "rat list \<Rightarrow> 'l list \<Rightarrow> error + 'l option list" where
  "qcut xs labels =
     (if xs = [] then Inl (ValueError ''Bin edges must be unique'')
      else let bins = quartile_bins xs
           in if \<not> distinct bins then Inl (ValueError ''Bin edges must be unique'')
              else if length labels \<noteq> length bins - 1
              then Inl (ValueError ''Bin labels must be one fewer than the number of bin edges'')
              else Inr (map (\<lambda>x. let i = bin_id bins x
                                  in if i = 0 \<or> i = length bins then None
                                     else Some (labels ! (i - 1))) xs))"

text \<open>
  \<open>rfm['Frequency'].rank(method='first')\<close>: the rank of a value is its position in
  ascending order, equal values in the order of the rows.
\<close>

definition rank_first :: "nat list \<Rightarrow> rat list" where
  "rank_first xs =
     map (\<lambda>i. of_nat (Suc (length (filter (\<lambda>y. y < xs ! i) xs) +
                              length (filter (\<lambda>y. y = xs ! i) (take i xs)))))
       [0..<length xs]"

subsection \<open>Scores and segments\<close>

text \<open>
  The \<open>try\<close> block: the frequency scores, then the monetary scores; when either
  \<open>qcut\<close> raises, both columns are the constant \<open>'1'\<close>.
\<close>

definition fm_scores :: "nat list \<Rightarrow> int list \<Rightarrow> char option list \<times> char option list" where
  "fm_scores fs ms =
     (let fallback = replicate (length fs) (Some CHR ''1'')
      in case qcut (rank_first fs) ''1234'' of
           Inl e \<Rightarrow> (fallback, fallback)
         | Inr F \<Rightarrow> (case qcut (map of_int ms) ''1234'' of
                       Inl e \<Rightarrow> (fallback, fallback)
                     | Inr M \<Rightarrow> (F, M)))"

text \<open>\<open>.astype(str)\<close> of a score column.\<close>

definition score_str :: "char option \<Rightarrow> string" where
  "score_str s = (case s of None \<Rightarrow> ''nan'' | Some c \<Rightarrow> [c])"

text \<open>\<open>segment_customer(row)\<close> reads \<open>row['RFM_Score']\<close> and \<open>row['R_Score']\<close>.\<close>

definition segment_customer :: "string \<Rightarrow> char option \<Rightarrow> string" where
  "segment_customer score r =
     (if score \<in> set [''444'', ''434'', ''443'', ''344''] then ''Champions''
      else if r = Some CHR ''4'' then ''New Users''
      else if r = Some CHR ''1'' then ''At Risk''
      else ''Regular'')"

definition score_row :: "'k rfm_row \<times> char option \<times> char option \<times> char option \<Rightarrow> 'k rfm_scored" where
  "score_row q =
     (case q of (row, r, f, m) \<Rightarrow>
        (let score = score_str r @ score_str f @ score_str m
         in \<lparr>rfm = row, r_score = r, f_score = f, m_score = m, rfm_score = score,
             segment = segment_customer score r\<rparr>))"

text \<open>
  The whole block under \<open>if not filtered_df.empty\<close>. The recency \<open>qcut\<close> stands before
  the \<open>try\<close>: its \<open>ValueError\<close> is not caught. On an empty table nothing is computed.
\<close>

definition segment_customers :: "('k::linorder) txn list \<Rightarrow> error + 'k rfm_scored list" where
  "segment_customers df =
     (if df = [] then Inr []
      else let tab = rfm_metrics df
           in case qcut (map (\<lambda>r. of_int (recency r)) tab) ''4321'' of
                Inl e \<Rightarrow> Inl e
              | Inr R \<Rightarrow>
                  (let (F, M) = fm_scores (map frequency tab) (map monetary tab)
                   in Inr (map score_row (zip tab (zip R (zip F M))))))"



section \<open>The aggregator: the weekly revenue trend\<close>





section \<open>Example data\<close>

text \<open>
  A conversion table for the examples: it agrees with pandas on the strings the examples
  use (\<open>2023-01-01\<close> is 1672531200 seconds after the epoch; \<open>abc\<close> and \<open>nan\<close> are
  no numbers).
\<close>

definition sample_conv :: coercion where
  "sample_conv =
     \<lparr>parse_datetime = (\<lambda>col c. if c = Str ''2023-01-01'' then Some 1672531200000000000 else None),
      parse_numeric = (\<lambda>s. if s = ''100'' then Some 100 else if s = ''1000'' then Some 1000 else None),
      py_str = (\<lambda>c. ''?'')\<rparr>"

definition no_date_frame :: dataframe where
  "no_date_frame = \<lparr>columns = [(''CustomerID'', Object), (''TotalSales'', Numeric)],
                     rows = [[Str ''C1'', Num 100]]\<rparr>"



definition comma_frame :: dataframe where
  "comma_frame =
     \<lparr>columns = [(''OrderDate'', Object), (''CustomerID'', Object), (''TotalSales'', Object)],
      rows = [[Str ''2023-01-01'', Str ''C2'', Str ''1,000''],
              [Str ''2023-01-01'', Str ''C2'', Str ''1000'']]\<rparr>"


definition quantity_frame :: dataframe where
  "quantity_frame =
     \<lparr>columns = [(''OrderDate'', Object), (''CustomerID'', Object), (''Quantity'', Object),
                 (''TotalSales'', Object)],
      rows = [[Str ''2023-01-01'', Str ''C1'', Str ''abc'', Str ''$100'']]\<rparr>"

text \<open>
  Transaction tables for the examples. 1672531200000000000 is 2023-01-01 00:00, a Sunday.
\<close>

definition single_order :: "string txn list" where
  "single_order = [\<lparr>order_date = 1672531200000000000, customer_id = Some ''CUST-1001'', total_sales = 120\<rparr>]"

definition five_customers :: "string txn list" where
  "five_customers =
     [\<lparr>order_date = 1672531200000000000 + 4 * ns_per_day, customer_id = Some ''A'', total_sales = 1\<rparr>,
      \<lparr>order_date = 1672531200000000000 + 3 * ns_per_day, customer_id = Some ''B'', total_sales = 2\<rparr>,
      \<lparr>order_date = 1672531200000000000 + 2 * ns_per_day, customer_id = Some ''C'', total_sales = 3\<rparr>,
      \<lparr>order_date = 1672531200000000000 + 1 * ns_per_day, customer_id = Some ''D'', total_sales = 4\<rparr>,
      \<lparr>order_date = 1672531200000000000, customer_id = Some ''E'', total_sales = 5\<rparr>]"


definition same_day_pair :: "string txn list" where
  "same_day_pair =
     [\<lparr>order_date = 1672531200000000000, customer_id = Some ''A'', total_sales = 50\<rparr>,
      \<lparr>order_date = 1672531200000000000, customer_id = Some ''B'', total_sales = 70\<rparr>]"

definition four_recencies :: "string txn list" where
  "four_recencies =
     [\<lparr>order_date = 1672531200000000000 + 3 * ns_per_day, customer_id = Some ''A'', total_sales = 10\<rparr>,
      \<lparr>order_date = 1672531200000000000 + 3 * ns_per_day, customer_id = Some ''B'', total_sales = 20\<rparr>,
      \<lparr>order_date = 1672531200000000000 + 2 * ns_per_day, customer_id = Some ''C'', total_sales = 30\<rparr>,
      \<lparr>order_date = 1672531200000000000 + 1 * ns_per_day, customer_id = Some ''D'', total_sales = 40\<rparr>,
      \<lparr>order_date = 1672531200000000000, customer_id = Some ''E'', total_sales = 50\<rparr>]"


section \<open>Properties of the cleaner\<close>

subsection \<open>Rows, columns and cells\<close>

lemma set_drop_dups_from: "set (drop_dups_from seen xs) = set xs - set seen"
  by (induction xs arbitrary: seen) auto

lemma distinct_drop_dups_from: "distinct (drop_dups_from seen xs)"
  by (induction xs arbitrary: seen) (auto simp: set_drop_dups_from)

lemma drop_dups_from_id: "distinct xs \<Longrightarrow> set xs \<inter> set seen = {} \<Longrightarrow> drop_dups_from seen xs = xs"
  by (induction xs arbitrary: seen) auto

lemma length_drop_dups: "length (drop_dups_from [] xs) = card (set xs)"
  using distinct_card[OF distinct_drop_dups_from, of "[]" xs] by (simp add: set_drop_dups_from)

lemma col_pos_Some: "col_pos c cols = Some j \<Longrightarrow> j < length cols \<and> fst (cols ! j) = c"
  by (induction cols arbitrary: j) (auto split: if_splits)

lemma col_pos_retype: "col_pos c (map_at j (\<lambda>p. (fst p, t)) cols) = col_pos c cols"
  by (induction j "\<lambda>p::string \<times> dtype. (fst p, t)" cols rule: map_at.induct) auto

lemma col_pos_inj: "col_pos a cols = Some j \<Longrightarrow> col_pos b cols = Some j \<Longrightarrow> a = b"
  by (auto dest!: col_pos_Some)

lemma length_map_at [simp]: "length (map_at j f xs) = length xs"
  by (induction j f xs rule: map_at.induct) auto

lemma nth_map_at: "i < length xs \<Longrightarrow> map_at j f xs ! i = (if i = j then f (xs ! i) else xs ! i)"
  by (induction j f xs arbitrary: i rule: map_at.induct) (auto simp: nth_Cons split: nat.splits)

lemma map_at_map_at: "map_at j f (map_at j g xs) = map_at j (\<lambda>x. f (g x)) xs"
  by (induction j g xs rule: map_at.induct) auto

lemma map_at_id: "(j < length xs \<Longrightarrow> f (xs ! j) = xs ! j) \<Longrightarrow> map_at j f xs = xs"
  by (induction j f xs rule: map_at.induct) auto

lemma cell_at_map_at: "cell_at i (map_at j f r) = (if i = j \<and> j < length r then f (r ! j) else cell_at i r)"
  by (auto simp: cell_at_def nth_map_at)

lemma map_at_opt_simps [simp]: "map_at_opt None f = (\<lambda>r. r)" "map_at_opt (Some j) f = map_at j f"
  by (simp_all add: map_at_opt_def fun_eq_iff)

lemma length_columns_assign [simp]: "length (columns (assign_column j t f df)) = length (columns df)"
  by (simp add: assign_column_def)

lemma numeric_value_fun:
  "numeric_value P t =
     (\<lambda>c. to_numeric_cell P t (if t = Some Object then str_replace_currency (astype_str P c) else c))"
  by (rule ext) (simp add: numeric_value_def)

lemma labels_map_at:
  fixes cols :: "(string \<times> dtype) list"
  shows "map fst (map_at j (\<lambda>p. (fst p, t)) cols) = map fst cols"
  by (induction j "\<lambda>p::string \<times> dtype. (fst p, t)" cols rule: map_at.induct) auto

lemma label_count_alt: "label_count c df = length (filter (\<lambda>n. n = c) (map fst (columns df)))"
  by (simp add: label_count_def filter_map comp_def)

lemma label_count_None: "col_pos c (columns df) = None \<longleftrightarrow> label_count c df = 0"
proof -
  have "col_pos c cols = None \<longleftrightarrow> filter (\<lambda>p. fst p = c) cols = []" for cols
    by (induction cols) auto
  then show ?thesis by (simp add: label_count_def)
qed


subsection \<open>The steps of the cleaner\<close>

text \<open>
  What each step does to the column labels, the dtypes and the rows.
\<close>

lemma columns_assign [simp]: "col_pos c (columns (assign_column j t f df)) = col_pos c (columns df)"
  by (simp add: assign_column_def col_pos_retype)

lemma label_count_assign [simp]: "label_count c (assign_column j t f df) = label_count c df"
  by (simp add: label_count_alt assign_column_def labels_map_at)

lemma label_count_drop_duplicates [simp]: "label_count c (drop_duplicates df) = label_count c df"
  by (simp add: label_count_def drop_duplicates_def)

lemma rows_assign [simp]: "rows (assign_column j t f df) = map (map_at j f) (rows df)"
  by (simp add: assign_column_def)

lemma dtype_at_assign:
  "dtype_at i (assign_column j t f df) =
     (if i = j \<and> j < length (columns df) then Some t else dtype_at i df)"
  by (auto simp: assign_column_def dtype_at_def nth_map_at)

lemma col_pos_drop_duplicates [simp]: "columns (drop_duplicates df) = columns df"
  by (simp add: drop_duplicates_def)

lemma rows_drop_duplicates: "rows (drop_duplicates df) = drop_dups_from [] (rows df)"
  by (simp add: drop_duplicates_def)

lemma dtype_at_drop_duplicates [simp]: "dtype_at i (drop_duplicates df) = dtype_at i df"
  by (simp add: dtype_at_def)

lemma col_pos_convert [simp]:
  "col_pos c (columns (order_date_converted P df)) = col_pos c (columns df)"
  by (simp add: order_date_converted_def split: option.splits)

lemma rows_convert:
  "rows (order_date_converted P df) =
     map (map_at_opt (col_pos ''OrderDate'' (columns df))
            (to_datetime_cell P (get_column (the (col_pos ''OrderDate'' (columns df))) df)))
       (rows df)"
  by (simp add: order_date_converted_def split: option.splits)

lemma dtype_at_convert:
  "dtype_at i (order_date_converted P df) =
     (if col_pos ''OrderDate'' (columns df) = Some i then Some Datetime else dtype_at i df)"
  by (auto simp: order_date_converted_def dtype_at_assign split: option.splits dest: col_pos_Some)

lemma col_pos_ensure [simp]:
  "col_pos c (columns (numeric_ensured P l df)) = col_pos c (columns df)"
  by (simp add: numeric_ensured_def Let_def split: option.splits)

lemma label_count_converted [simp]: "label_count c (order_date_converted P df) = label_count c df"
  by (simp add: order_date_converted_def split: option.splits)

lemma label_count_ensured [simp]: "label_count c (numeric_ensured P l df) = label_count c df"
  by (simp add: numeric_ensured_def Let_def split: option.splits)

lemma rows_ensure:
  "rows (numeric_ensured P l df) =
     map (map_at_opt (col_pos l (columns df))
            (numeric_value P (dtype_at (the (col_pos l (columns df))) df)))
       (rows df)"
  by (auto simp: numeric_ensured_def Let_def numeric_value_fun map_at_map_at dtype_at_assign
           split: option.splits dest: col_pos_Some)

lemma dtype_at_ensure:
  "dtype_at i (numeric_ensured P l df) =
     (if col_pos l (columns df) = Some i then Some Numeric else dtype_at i df)"
  by (auto simp: numeric_ensured_def Let_def dtype_at_assign split: option.splits dest: col_pos_Some)

lemma cell_at_map_at_opt:
  "cell_at i (map_at_opt jo f r) =
     (if jo = Some i \<and> i < length r then f (cell_at i r) else cell_at i r)"
  by (cases jo) (auto simp: cell_at_def nth_map_at)

lemma length_map_at_opt [simp]: "length (map_at_opt jo f r) = length r"
  by (cases jo) auto

lemma convert_order_date_ok:
  "label_count ''OrderDate'' df \<le> 1 \<Longrightarrow> convert_order_date P df = Inr (order_date_converted P df)"
  by (simp add: convert_order_date_def order_date_converted_def split: option.splits)

lemma convert_order_date_repeated:
  "1 < label_count ''OrderDate'' df \<Longrightarrow>
     convert_order_date P df = Inl (ValueError ''cannot assemble with duplicate keys'')"
  using label_count_None[of "''OrderDate''" df]
  by (auto simp: convert_order_date_def split: option.splits)

lemma ensure_numeric_ok:
  "label_count l df \<le> 1 \<Longrightarrow> ensure_numeric P l df = Inr (numeric_ensured P l df)"
  by (simp add: ensure_numeric_def numeric_ensured_def Let_def split: option.splits)

lemma ensure_numeric_repeated:
  "1 < label_count l df \<Longrightarrow> ensure_numeric P l df = Inl (AttributeError ''dtype'')"
  using label_count_None[of l df] by (auto simp: ensure_numeric_def split: option.splits)

lemma clean_data_alt:
  assumes "labels_ok df"
  shows "clean_data P df = dropna [''OrderDate'', ''TotalSales''] (coerce_columns P (drop_duplicates df))"
  using assms
  by (simp add: clean_data_def coerce_columns_def labels_ok_def numeric_cols_def
      convert_order_date_ok ensure_numeric_ok)

lemma clean_data_repeated_label:
  assumes "\<not> labels_ok df"
  shows "\<exists>e. clean_data P df = Inl e"
proof (cases "1 < label_count ''OrderDate'' df")
  case True
  then show ?thesis by (simp add: clean_data_def convert_order_date_repeated)
next
  case od: False
  show ?thesis
  proof (cases "1 < label_count ''TotalSales'' df")
    case True
    then show ?thesis using od
      by (simp add: clean_data_def numeric_cols_def convert_order_date_ok ensure_numeric_repeated)
  next
    case False
    with od assms have "1 < label_count ''Quantity'' df"
      by (auto simp: labels_ok_def numeric_cols_def)
    then show ?thesis using od False
      by (simp add: clean_data_def numeric_cols_def convert_order_date_ok ensure_numeric_ok
          ensure_numeric_repeated)
  qed
qed

lemma label_count_rows_update [simp]: "label_count c (df\<lparr>rows := rs\<rparr>) = label_count c df"
  by (simp add: label_count_def)

lemma label_count_coerce [simp]: "label_count c (coerce_columns P df) = label_count c df"
  by (simp add: coerce_columns_def numeric_cols_def)

lemma col_pos_coerce [simp]: "col_pos c (columns (coerce_columns P df)) = col_pos c (columns df)"
  by (simp add: coerce_columns_def numeric_cols_def)

lemma rows_coerce: "rows (coerce_columns P df) = map (clean_row P df) (rows df)"
proof -
  have neq: "col_pos ''TotalSales'' (columns df) = Some i \<Longrightarrow> col_pos ''OrderDate'' (columns df) \<noteq> Some i" for i
    by (auto dest: col_pos_inj)
  have neq2: "col_pos ''Quantity'' (columns df) = Some i \<Longrightarrow> col_pos ''OrderDate'' (columns df) \<noteq> Some i" for i
    by (auto dest: col_pos_inj)
  have neq3: "col_pos ''Quantity'' (columns df) = Some i \<Longrightarrow> col_pos ''TotalSales'' (columns df) \<noteq> Some i" for i
    by (auto dest: col_pos_inj)
  show ?thesis
    by (cases "col_pos ''TotalSales'' (columns df)"; cases "col_pos ''Quantity'' (columns df)")
       (auto simp: coerce_columns_def numeric_cols_def rows_ensure rows_convert clean_row_def
          dtype_at_ensure dtype_at_convert Let_def dest: neq neq2 neq3)
qed

subsection \<open>Coerced cells and the result of \<open>clean_data\<close>\<close>

lemma to_datetime_cell_shape: "to_datetime_cell P col c = NA \<or> is_date (to_datetime_cell P col c)"
  by (cases c) (auto simp: to_datetime_cell_def split: option.splits)

lemma to_numeric_cell_shape: "to_numeric_cell P t c = NA \<or> is_num (to_numeric_cell P t c)"
  by (cases c) (auto simp: to_numeric_cell_def split: option.splits)

lemma numeric_value_shape: "numeric_value P t c = NA \<or> is_num (numeric_value P t c)"
  unfolding numeric_value_def by (rule to_numeric_cell_shape)

lemma to_datetime_cell_fixed: "c = NA \<or> is_date c \<Longrightarrow> to_datetime_cell P col c = c"
  by (cases c) (auto simp: to_datetime_cell_def)

lemma to_numeric_cell_fixed:
  "c = NA \<or> is_num c \<Longrightarrow> t \<noteq> Some Datetime \<Longrightarrow> to_numeric_cell P t c = c"
  by (cases c) (auto simp: to_numeric_cell_def)

lemma dropna_present:
  assumes "col_pos ''OrderDate'' (columns d) = Some jd" "col_pos ''TotalSales'' (columns d) = Some js"
  shows "dropna [''OrderDate'', ''TotalSales''] d =
           Inr (d\<lparr>rows := filter (\<lambda>r. cell_at jd r \<noteq> NA \<and> cell_at js r \<noteq> NA) (rows d)\<rparr>)"
  using assms by (simp add: dropna_def List.map_filter_simps)

lemma dropna_missing:
  assumes "col_pos ''OrderDate'' (columns d) = None \<or> col_pos ''TotalSales'' (columns d) = None"
  shows "\<exists>ls. dropna [''OrderDate'', ''TotalSales''] d = Inl (KeyError ls)"
  using assms by (auto simp: dropna_def)

lemma cell_clean_row_date:
  assumes "col_pos ''OrderDate'' (columns df) = Some jd"
  shows "cell_at jd (clean_row P df r) =
           (if jd < length r then to_datetime_cell P (get_column jd df) (cell_at jd r) else NA)"
proof -
  have "col_pos ''TotalSales'' (columns df) \<noteq> Some jd" "col_pos ''Quantity'' (columns df) \<noteq> Some jd"
    using assms by (auto dest: col_pos_inj)
  then show ?thesis using assms
    by (simp add: clean_row_def Let_def cell_at_map_at_opt del: map_at_opt_simps)
      (simp add: cell_at_def)
qed

lemma cell_clean_row_sales:
  assumes "col_pos ''TotalSales'' (columns df) = Some js"
  shows "cell_at js (clean_row P df r) =
           (if js < length r then numeric_value P (dtype_at js df) (cell_at js r) else NA)"
proof -
  have "col_pos ''OrderDate'' (columns df) \<noteq> Some js" "col_pos ''Quantity'' (columns df) \<noteq> Some js"
    using assms by (auto dest: col_pos_inj)
  then show ?thesis using assms
    by (simp add: clean_row_def Let_def cell_at_map_at_opt del: map_at_opt_simps)
      (simp add: cell_at_def)
qed

lemma cell_clean_row_quantity:
  assumes "col_pos ''Quantity'' (columns df) = Some jq"
  shows "cell_at jq (clean_row P df r) =
           (if jq < length r then numeric_value P (dtype_at jq df) (cell_at jq r) else NA)"
proof -
  have "col_pos ''OrderDate'' (columns df) \<noteq> Some jq" "col_pos ''TotalSales'' (columns df) \<noteq> Some jq"
    using assms by (auto dest: col_pos_inj)
  then show ?thesis using assms
    by (simp add: clean_row_def Let_def cell_at_map_at_opt del: map_at_opt_simps)
      (simp add: cell_at_def)
qed


lemma dtype_at_coerce:
  "dtype_at i (coerce_columns P df) =
     (if col_pos ''Quantity'' (columns df) = Some i \<or> col_pos ''TotalSales'' (columns df) = Some i
      then Some Numeric
      else if col_pos ''OrderDate'' (columns df) = Some i then Some Datetime
      else dtype_at i df)"
  by (simp add: coerce_columns_def numeric_cols_def dtype_at_ensure dtype_at_convert)

lemma clean_data_present:
  assumes "labels_ok df"
    and "col_pos ''OrderDate'' (columns df) = Some jd" "col_pos ''TotalSales'' (columns df) = Some js"
  shows "clean_data P df =
           Inr ((coerce_columns P (drop_duplicates df))
                  \<lparr>rows := filter (\<lambda>r. cell_at jd r \<noteq> NA \<and> cell_at js r \<noteq> NA)
                             (map (clean_row P (drop_duplicates df)) (drop_dups_from [] (rows df)))\<rparr>)"
  using assms
  by (simp add: clean_data_alt dropna_present rows_coerce rows_drop_duplicates)

lemma clean_data_raises:
  assumes "col_pos ''OrderDate'' (columns df) = None \<or> col_pos ''TotalSales'' (columns df) = None"
  shows "\<exists>e. clean_data P df = Inl e"
proof (cases "labels_ok df")
  case True
  with assms dropna_missing[of "coerce_columns P (drop_duplicates df)"] show ?thesis
    by (auto simp: clean_data_alt)
next
  case False
  then show ?thesis by (rule clean_data_repeated_label)
qed

lemma clean_data_Inr_labels:
  assumes "clean_data P df = Inr d"
  shows "labels_ok df" "col_pos ''OrderDate'' (columns df) \<noteq> None"
    "col_pos ''TotalSales'' (columns df) \<noteq> None"
proof -
  show "labels_ok df"
    using assms clean_data_repeated_label[of df P] by (cases "labels_ok df") auto
  show "col_pos ''OrderDate'' (columns df) \<noteq> None"
    using assms clean_data_raises[of df P] by (cases "col_pos ''OrderDate'' (columns df)") auto
  show "col_pos ''TotalSales'' (columns df) \<noteq> None"
    using assms clean_data_raises[of df P] by (cases "col_pos ''TotalSales'' (columns df)") auto
qed

subsection \<open>Cleaning a cleaned frame\<close>

lemma dtype_at_rows_update [simp]: "dtype_at i (df\<lparr>rows := rs\<rparr>) = dtype_at i df"
  by (simp add: dtype_at_def)

lemma assign_column_id:
  assumes "dtype_at j df = Some t" "\<forall>r\<in>set (rows df). f (cell_at j r) = cell_at j r"
  shows "assign_column j t f df = df"
proof -
  have "map_at j (\<lambda>p. (fst p, t)) (columns df) = columns df"
    using assms(1) by (intro map_at_id) (auto simp: dtype_at_def split: if_splits)
  moreover have "map (map_at j f) (rows df) = rows df"
    using assms(2) by (intro map_idI map_at_id) (auto simp: cell_at_def)
  ultimately show ?thesis by (simp add: assign_column_def)
qed

lemma convert_order_date_id:
  assumes "col_pos ''OrderDate'' (columns df) = Some jd" "dtype_at jd df = Some Datetime"
    "\<forall>r\<in>set (rows df). cell_at jd r = NA \<or> is_date (cell_at jd r)"
  shows "order_date_converted P df = df"
  using assms by (simp add: order_date_converted_def assign_column_id to_datetime_cell_fixed)

lemma ensure_numeric_id:
  assumes "col_pos l (columns df) = None \<or>
           (\<exists>j. col_pos l (columns df) = Some j \<and> dtype_at j df = Some Numeric \<and>
                (\<forall>r\<in>set (rows df). cell_at j r = NA \<or> is_num (cell_at j r)))"
  shows "numeric_ensured P l df = df"
  using assms by (auto simp: numeric_ensured_def assign_column_id to_numeric_cell_fixed)

lemma labels_ok_cong: "(\<And>c. label_count c d = label_count c df) \<Longrightarrow> labels_ok d = labels_ok df"
  by (simp add: labels_ok_def)

lemma is_date_not_NA: "is_date c \<Longrightarrow> c \<noteq> NA" by (cases c) auto
lemma is_num_not_NA: "is_num c \<Longrightarrow> c \<noteq> NA" by (cases c) auto

lemma clean_shape_fixed:
  assumes "clean_shape d" and ok: "labels_ok d"
  shows "clean_data P d = Inr (drop_duplicates d)"
proof -
  let ?d = "drop_duplicates d"
  from assms obtain jd js where
    jd: "col_pos ''OrderDate'' (columns d) = Some jd" and js: "col_pos ''TotalSales'' (columns d) = Some js"
    and td: "dtype_at jd d = Some Datetime" and ts: "dtype_at js d = Some Numeric"
    and cells: "\<forall>r\<in>set (rows d). is_date (cell_at jd r) \<and> is_num (cell_at js r)"
    unfolding clean_shape_def by blast
  have sub: "set (rows ?d) = set (rows d)"
    by (simp add: rows_drop_duplicates set_drop_dups_from)
  have c1: "order_date_converted P ?d = ?d"
    using jd td cells sub by (intro convert_order_date_id[where jd = jd]) auto
  have c2: "numeric_ensured P ''TotalSales'' ?d = ?d"
    using js ts cells sub by (intro ensure_numeric_id) auto
  have c3: "numeric_ensured P ''Quantity'' ?d = ?d"
  proof (cases "col_pos ''Quantity'' (columns d)")
    case None
    then show ?thesis by (intro ensure_numeric_id) simp
  next
    case (Some jq)
    with assms have "dtype_at jq d = Some Numeric"
      "\<forall>r\<in>set (rows d). cell_at jq r = NA \<or> is_num (cell_at jq r)"
      unfolding clean_shape_def by blast+
    with Some sub show ?thesis by (intro ensure_numeric_id) auto
  qed
  have co: "coerce_columns P ?d = ?d"
    by (simp add: coerce_columns_def numeric_cols_def c1 c2 c3)
  have "filter (\<lambda>r. cell_at jd r \<noteq> NA \<and> cell_at js r \<noteq> NA) (rows ?d) = rows ?d"
    using cells sub by (auto simp: filter_id_conv is_date_not_NA is_num_not_NA)
  moreover have "drop_duplicates ?d = ?d"
    by (simp add: drop_duplicates_def drop_dups_from_id distinct_drop_dups_from)
  ultimately show ?thesis
    using jd js by (simp add: clean_data_alt[OF ok] co dropna_present)
qed

lemma clean_data_shape:
  assumes "clean_data P df = Inr d"
  shows "clean_shape d" and "labels_ok d"
proof -
  let ?d1 = "drop_duplicates df"
  note ok = clean_data_Inr_labels(1)[OF assms]
  from clean_data_Inr_labels(2,3)[OF assms] obtain jd js where
    jd: "col_pos ''OrderDate'' (columns df) = Some jd" and js: "col_pos ''TotalSales'' (columns df) = Some js"
    by auto
  have ne: "jd \<noteq> js" using jd js by (auto dest: col_pos_inj)
  have d: "d = (coerce_columns P ?d1)
                  \<lparr>rows := filter (\<lambda>r. cell_at jd r \<noteq> NA \<and> cell_at js r \<noteq> NA)
                             (map (clean_row P ?d1) (drop_dups_from [] (rows df)))\<rparr>"
    using assms clean_data_present[OF ok jd js, of P] by simp
  have cols: "col_pos c (columns d) = col_pos c (columns df)" for c
    by (simp add: d)
  have "label_count c d = label_count c df" for c
    by (simp add: d)
  then have "labels_ok d = labels_ok df" by (rule labels_ok_cong)
  with ok show "labels_ok d" by simp
  have dt: "dtype_at i d = dtype_at i (coerce_columns P ?d1)" for i
    by (simp add: d)
  have rows: "r \<in> set (rows d) \<Longrightarrow> \<exists>r0. r = clean_row P ?d1 r0 \<and> cell_at jd r \<noteq> NA \<and> cell_at js r \<noteq> NA" for r
    by (auto simp: d)
  have A: "is_date (cell_at jd r) \<and> is_num (cell_at js r)" if "r \<in> set (rows d)" for r
  proof -
    from rows[OF that] obtain r0 where r: "r = clean_row P ?d1 r0"
      and n: "cell_at jd r \<noteq> NA" "cell_at js r \<noteq> NA" by blast
    show ?thesis
      using n to_datetime_cell_shape[of P "get_column jd ?d1" "cell_at jd r0"]
        numeric_value_shape[of P "dtype_at js ?d1" "cell_at js r0"]
      unfolding r by (auto simp: cell_clean_row_date jd cell_clean_row_sales js split: if_splits)
  qed
  have B: "cell_at jq r = NA \<or> is_num (cell_at jq r)"
    if "r \<in> set (rows d)" "col_pos ''Quantity'' (columns df) = Some jq" for r jq
  proof -
    from rows[OF that(1)] obtain r0 where r: "r = clean_row P ?d1 r0" by blast
    show ?thesis
      using numeric_value_shape[of P "dtype_at jq ?d1" "cell_at jq r0"] that(2)
      unfolding r by (auto simp: cell_clean_row_quantity split: if_splits)
  qed
  show "clean_shape d"
    unfolding clean_shape_def cols
    using jd js ne A B by (auto simp: dt dtype_at_coerce dest: col_pos_inj)
qed

lemmas clean_eval = clean_data_def drop_duplicates_def convert_order_date_def ensure_numeric_def
  label_count_def numeric_cols_def dropna_def assign_column_def get_column_def dtype_at_def cell_at_def
  to_datetime_cell_def to_numeric_cell_def astype_str_def str_replace_currency_def
  List.map_filter_simps sample_conv_def Let_def


subsection \<open>The claims about \<open>clean_data\<close>\<close>

text \<open>
  Claim C2: \<open>clean_data\<close> never raises, also on a table that lacks an expected column.
  Steps 2 and 3 test \<open>col in df.columns\<close> first, step 4 does not: on a frame without
  the \<open>OrderDate\<close> column, \<open>dropna(subset=['OrderDate', 'TotalSales'])\<close> raises
  \<open>KeyError\<close>, whatever the conversions of pandas do (by lemma \<open>clean_data_raises\<close>
  every frame without one of the two columns raises).
\<close>

theorem clean_data_missing_column_raises:
  "clean_data P no_date_frame = Inl (KeyError [''OrderDate''])"
  by (simp add: no_date_frame_def clean_eval)


text \<open>
  Claim C4, as stated, fails: cleaning the cleaned table again removes the rows that the
  first run made equal (here two amounts that differ by a thousands separator).
\<close>

theorem clean_data_not_idempotent:
  "clean_twice sample_conv comma_frame \<noteq> clean_data sample_conv comma_frame"
  by (simp add: comma_frame_def clean_twice_def clean_eval)



text \<open>
  Claim C4, amended: when \<open>clean_data\<close> returns \<open>d\<close>, cleaning \<open>d\<close> again
  returns \<open>d\<close> without its duplicate rows; so the second run changes nothing exactly
  when no two rows of \<open>d\<close> are equal.
\<close>

theorem clean_twice_drops_duplicates:
  assumes "clean_data P df = Inr d"
  shows "clean_twice P df = Inr (drop_duplicates d) \<and>
         (distinct (rows d) \<longrightarrow> clean_twice P df = clean_data P df)"
proof -
  have "clean_data P d = Inr (drop_duplicates d)"
    by (rule clean_shape_fixed[OF clean_data_shape[OF assms]])
  moreover have "distinct (rows d) \<Longrightarrow> drop_duplicates d = d"
    by (simp add: drop_duplicates_def drop_dups_from_id)
  ultimately show ?thesis using assms by (auto simp: clean_twice_def)
qed

theorem clean_twice_drops_duplicates_witness:
  "clean_data sample_conv quantity_frame = Inr
      \<lparr>columns = [(''OrderDate'', Datetime), (''CustomerID'', Object), (''Quantity'', Numeric),
                  (''TotalSales'', Numeric)],
       rows = [[Date 1672531200000000000, Str ''C1'', NA, Num 100]]\<rparr> \<and>
   clean_twice sample_conv quantity_frame = clean_data sample_conv quantity_frame"
proof -
  have h: "clean_data sample_conv quantity_frame = Inr
      \<lparr>columns = [(''OrderDate'', Datetime), (''CustomerID'', Object), (''Quantity'', Numeric),
                  (''TotalSales'', Numeric)],
       rows = [[Date 1672531200000000000, Str ''C1'', NA, Num 100]]\<rparr>"
    by (simp add: quantity_frame_def clean_eval)
  show ?thesis using h clean_twice_drops_duplicates[OF h] by (simp add: drop_duplicates_def)
qed




section \<open>Properties of the segmenter\<close>

subsection \<open>Positions in a sorted list\<close>






subsection \<open>Quantiles\<close>


lemma interp_bounds:
  fixes a b g :: rat
  assumes "a \<le> b" "0 \<le> g" "g < 1"
  shows "a \<le> a + (b - a) * g" "a + (b - a) * g \<le> b"
proof -
  show "a \<le> a + (b - a) * g" using assms by simp
  have "0 \<le> (1 - g) * (b - a)" using assms by simp
  then show "a + (b - a) * g \<le> b" by (simp add: algebra_simps)
qed

lemma frac4: "0 \<le> (of_nat (p mod 4) / 4 :: rat)" "(of_nat (p mod 4) / 4 :: rat) < 1"
proof -
  show "0 \<le> (of_nat (p mod 4) / 4 :: rat)" by simp
  have "p mod 4 < 4" by simp
  then have "(of_nat (p mod 4) :: rat) < 4" by (metis of_nat_less_iff of_nat_numeral)
  then show "(of_nat (p mod 4) / 4 :: rat) < 1" by simp
qed

lemma edge_positions:
  assumes "s \<noteq> []" "j \<le> 4"
  shows "j * (length s - 1) div 4 < length s" "min (j * (length s - 1) div 4 + 1) (length s - 1) < length s"
    "j * (length s - 1) div 4 \<le> min (j * (length s - 1) div 4 + 1) (length s - 1)"
proof -
  have n: "0 < length s" using assms(1) by simp
  have "j * (length s - 1) \<le> 4 * (length s - 1)" using assms(2) by simp
  then have "j * (length s - 1) div 4 \<le> 4 * (length s - 1) div 4" by (rule div_le_mono)
  then have "j * (length s - 1) div 4 \<le> length s - 1" by simp
  then show "j * (length s - 1) div 4 < length s" "min (j * (length s - 1) div 4 + 1) (length s - 1) < length s"
    "j * (length s - 1) div 4 \<le> min (j * (length s - 1) div 4 + 1) (length s - 1)"
    using n by arith+
qed

lemma quantile_edge_bounds:
  assumes "sorted s" "s \<noteq> []" "j \<le> 4"
  shows "s ! (j * (length s - 1) div 4) \<le> quantile_edge s j"
    and "quantile_edge s j \<le> s ! (min (j * (length s - 1) div 4 + 1) (length s - 1))"
proof -
  let ?lo = "j * (length s - 1) div 4"
  let ?hi = "min (?lo + 1) (length s - 1)"
  have "s ! ?lo \<le> s ! ?hi"
    using edge_positions[OF assms(2,3)] assms(1) by (intro sorted_nth_mono) auto
  from interp_bounds[OF this frac4]
  show "s ! ?lo \<le> quantile_edge s j" "quantile_edge s j \<le> s ! ?hi"
    by (simp_all add: quantile_edge_def Let_def)
qed


subsection \<open>Bins\<close>

text \<open>
  Every value is in one of the four bins; the first edge is the minimum, the last edge the
  maximum.
\<close>

lemma length_quartile_bins [simp]: "length (quartile_bins xs) = 5"
  by (simp add: quartile_bins_def)

lemma quartile_bins_nth: "j < 5 \<Longrightarrow> quartile_bins xs ! j = quantile_edge (sort xs) j"
  by (simp add: quartile_bins_def del: upt_Suc)

lemma quartile_bins_list:
  "quartile_bins xs = [quantile_edge (sort xs) 0, quantile_edge (sort xs) 1, quantile_edge (sort xs) 2,
                       quantile_edge (sort xs) 3, quantile_edge (sort xs) 4]"
  by (simp add: quartile_bins_def upt_rec numeral_eq_Suc)

lemma quantile_edge_first: "quantile_edge s 0 = s ! 0"
  by (simp add: quantile_edge_def)

lemma quantile_edge_last: "s \<noteq> [] \<Longrightarrow> quantile_edge s 4 = s ! (length s - 1)"
  by (simp add: quantile_edge_def)

lemma sort_first_le:
  fixes xs :: "rat list"
  assumes "x \<in> set xs"
  shows "sort xs ! 0 \<le> x"
proof -
  from assms have "x \<in> set (sort xs)" by simp
  then obtain k where "k < length (sort xs)" "sort xs ! k = x" by (metis in_set_conv_nth)
  then show ?thesis using sorted_nth_mono[of "sort xs" 0 k] by auto
qed

lemma sort_last_ge:
  fixes xs :: "rat list"
  assumes "x \<in> set xs"
  shows "x \<le> sort xs ! (length xs - 1)"
proof -
  from assms have "x \<in> set (sort xs)" by simp
  then obtain k where "k < length (sort xs)" "sort xs ! k = x" by (metis in_set_conv_nth)
  then show ?thesis using sorted_nth_mono[of "sort xs" k "length xs - 1"] by auto
qed

lemma sort_first_mem: "xs \<noteq> [] \<Longrightarrow> sort xs ! 0 \<in> set (xs :: rat list)"
  using nth_mem[of 0 "sort xs"] by (auto simp del: nth_mem)

lemma sort_last_mem: "xs \<noteq> [] \<Longrightarrow> sort xs ! (length xs - 1) \<in> set (xs :: rat list)"
  using nth_mem[of "length xs - 1" "sort xs"] by (auto simp del: nth_mem)

lemma bins_first: "quartile_bins xs ! 0 = sort xs ! 0"
  by (simp add: quartile_bins_nth quantile_edge_first)

lemma sort_not_Nil: "xs \<noteq> [] \<Longrightarrow> sort xs \<noteq> ([] :: rat list)"
  by (metis length_0_conv length_sort)

lemma bins_last: "xs \<noteq> [] \<Longrightarrow> quartile_bins xs ! 4 = sort xs ! (length xs - 1)"
  using quantile_edge_last[OF sort_not_Nil, of xs] by (simp add: quartile_bins_nth)


lemma bin_id_range:
  assumes "x \<in> set xs"
  shows "1 \<le> bin_id (quartile_bins xs) x" "bin_id (quartile_bins xs) x \<le> 4"
proof -
  let ?b = "quartile_bins xs"
  have ne: "xs \<noteq> []" using assms by auto
  have lo: "?b ! 0 \<le> x" using sort_first_le[OF assms] by (simp add: bins_first)
  have hi: "x \<le> ?b ! 4" using sort_last_ge[OF assms] by (simp add: bins_last ne)
  have m0: "?b ! 0 \<in> set ?b" and m4: "?b ! 4 \<in> set ?b" by (simp_all)
  show "1 \<le> bin_id ?b x"
  proof (cases "x = ?b ! 0")
    case True
    then show ?thesis by (simp add: bin_id_def)
  next
    case False
    with lo have "?b ! 0 < x" by simp
    with m0 have "?b ! 0 \<in> set (filter (\<lambda>b. b < x) ?b)" by simp
    then have "0 < length (filter (\<lambda>b. b < x) ?b)" by (rule length_pos_if_in_set)
    with False show ?thesis by (simp add: bin_id_def searchsorted_left_def Suc_le_eq)
  qed
  have "length (filter (\<lambda>b. b < x) ?b) < length ?b"
    using m4 hi by (intro length_filter_less[of "?b ! 4"]) auto
  then show "bin_id ?b x \<le> 4" by (simp add: bin_id_def searchsorted_left_def)
qed



lemma qcut_Inr:
  assumes "xs \<noteq> []" "distinct (quartile_bins xs)" "length labels = 4"
  shows "qcut xs labels = Inr (map (\<lambda>x. Some (labels ! (bin_id (quartile_bins xs) x - 1))) xs)"
proof -
  have "(let i = bin_id (quartile_bins xs) x
         in if i = 0 \<or> i = length (quartile_bins xs) then None else Some (labels ! (i - 1)))
        = Some (labels ! (bin_id (quartile_bins xs) x - 1))" if "x \<in> set xs" for x
    using bin_id_range[OF that] by (simp add: Let_def)
  then show ?thesis using assms by (simp add: qcut_def Let_def cong: map_cong)
qed

lemma qcut_Inl:
  assumes "xs = [] \<or> \<not> distinct (quartile_bins xs)"
  shows "qcut xs labels = Inl (ValueError ''Bin edges must be unique'')"
  using assms by (auto simp: qcut_def Let_def)

lemma length_qcut: "qcut xs labels = Inr ys \<Longrightarrow> length ys = length xs"
  by (auto simp: qcut_def Let_def split: if_splits)






subsection \<open>The block as a whole\<close>

lemma length_rfm_metrics [simp]: "length (rfm_metrics df) = length (group_keys df)"
  by (simp add: rfm_metrics_def)

lemma customers_rfm_metrics: "map customer (rfm_metrics df) = group_keys df"
  by (simp add: rfm_metrics_def Let_def comp_def)

lemma set_map_filter: "set (List.map_filter f xs) = {y. \<exists>x\<in>set xs. f x = Some y}"
  by (induction xs) (auto simp: List.map_filter_simps split: option.splits)

lemma set_group_keys: "set (group_keys df) = {k. \<exists>t\<in>set df. customer_id t = Some k}"
  by (simp add: group_keys_def set_map_filter)

lemma distinct_group_keys: "distinct (group_keys df)"
  by (simp add: group_keys_def)

lemma length_fm_scores:
  assumes "length ms = length fs"
  shows "length (fst (fm_scores fs ms)) = length fs" "length (snd (fm_scores fs ms)) = length fs"
  using assms
  by (auto simp: fm_scores_def Let_def rank_first_def split: sum.splits dest!: length_qcut)

lemma fm_scores_fallback:
  assumes "\<not> distinct (quartile_bins (map of_int ms))"
  shows "fm_scores fs ms = (replicate (length fs) (Some CHR ''1''), replicate (length fs) (Some CHR ''1''))"
  using qcut_Inl[of "map rat_of_int ms" "''1234''"] assms
  by (simp add: fm_scores_def Let_def split: sum.splits)

lemma segment_customers_Inl:
  assumes "df \<noteq> []" "\<not> distinct (quartile_bins (recencies df))"
  shows "segment_customers df = Inl (ValueError ''Bin edges must be unique'')"
  using assms qcut_Inl[of "recencies df" "''4321''"]
  by (simp add: segment_customers_def Let_def recencies_def)

lemma quartile_bins_single: "quartile_bins [x] = [x, x, x, x, x]"
  by (simp add: quartile_bins_list quantile_edge_def)

lemma single_customer_raises:
  assumes "df \<noteq> []" "length (group_keys df) \<le> 1"
  shows "segment_customers df = Inl (ValueError ''Bin edges must be unique'')"
proof -
  have "length (recencies df) \<le> 1" using assms(2) by (simp add: recencies_def)
  then consider "recencies df = []" | x where "recencies df = [x]"
    by (cases "recencies df") (auto simp: length_Suc_conv)
  then show ?thesis
  proof cases
    case 1
    then show ?thesis using assms(1) qcut_Inl[of "[]" "''4321''"]
      by (simp add: segment_customers_def Let_def recencies_def)
  next
    case 2
    then have "\<not> distinct (quartile_bins (recencies df))" by (simp add: quartile_bins_single)
    then show ?thesis by (rule segment_customers_Inl[OF assms(1)])
  qed
qed

lemma quartile_bins_Nil: "\<not> distinct (quartile_bins [])"
  by (simp add: quartile_bins_list quantile_edge_def)

lemma segment_customers_Inr:
  assumes "df \<noteq> []" "distinct (quartile_bins (recencies df))"
  defines "tab \<equiv> rfm_metrics df"
  defines "R \<equiv> map (\<lambda>x. Some (''4321'' ! (bin_id (quartile_bins (recencies df)) x - 1))) (recencies df)"
  defines "FM \<equiv> fm_scores (map frequency tab) (map monetary tab)"
  shows "segment_customers df = Inr (map score_row (zip tab (zip R (zip (fst FM) (snd FM)))))"
    and "length R = length tab" "length (fst FM) = length tab" "length (snd FM) = length tab"
    and "tab \<noteq> []"
proof -
  have ne: "recencies df \<noteq> []"
    using assms(2) quartile_bins_Nil by auto
  then show "tab \<noteq> []" by (auto simp: recencies_def tab_def)
  have q: "qcut (recencies df) ''4321'' = Inr R"
    unfolding R_def by (rule qcut_Inr[OF ne assms(2)]) simp
  have "segment_customers df =
          (case qcut (recencies df) ''4321'' of
             Inl e \<Rightarrow> Inl e
           | Inr R \<Rightarrow> Inr (map score_row (zip tab (zip R (zip (fst FM) (snd FM))))))"
    using assms(1) unfolding segment_customers_def recencies_def tab_def FM_def
    by (simp add: Let_def case_prod_beta split: sum.splits)
  then show "segment_customers df = Inr (map score_row (zip tab (zip R (zip (fst FM) (snd FM)))))"
    by (simp add: q)
  show "length R = length tab" by (simp add: R_def recencies_def tab_def)
  show "length (fst FM) = length tab" "length (snd FM) = length tab"
    unfolding FM_def by (simp_all add: length_fm_scores)
qed

lemma segment_customer_cases:
  "segment_customer score r \<in> {''Champions'', ''New Users'', ''At Risk'', ''Regular''}"
  by (simp add: segment_customer_def)

lemma group_rows_nonempty: "k \<in> set (group_keys df) \<Longrightarrow> group_rows k df \<noteq> []"
  by (auto simp: set_group_keys group_rows_def filter_empty_conv)

lemma recency_ge_1:
  assumes "k \<in> set (group_keys df)"
  shows "1 \<le> (snapshot_date df - Max (set (map order_date (group_rows k df)))) div ns_per_day"
proof -
  let ?g = "group_rows k df"
  have "set (map order_date ?g) \<subseteq> set (map order_date df)" by (auto simp: group_rows_def)
  moreover have "set (map order_date ?g) \<noteq> {}" using group_rows_nonempty[OF assms] by simp
  ultimately have "Max (set (map order_date ?g)) \<le> Max (set (map order_date df))"
    by (intro Max_mono) auto
  then have "ns_per_day \<le> snapshot_date df - Max (set (map order_date ?g))"
    by (simp add: snapshot_date_def)
  then have "ns_per_day div ns_per_day \<le> (snapshot_date df - Max (set (map order_date ?g))) div ns_per_day"
    by (intro zdiv_mono1) (simp_all add: ns_per_day_def)
  then show ?thesis by (simp add: ns_per_day_def)
qed

lemma nth_scored:
  assumes "length R = length tab" "length F = length tab" "length M = length tab" "i < length tab"
  shows "map score_row (zip tab (zip R (zip F M))) ! i = score_row (tab ! i, R ! i, F ! i, M ! i)"
  using assms by simp

lemma rfm_score_row [simp]:
  "rfm (score_row (row, r, f, m)) = row" "r_score (score_row (row, r, f, m)) = r"
  "f_score (score_row (row, r, f, m)) = f" "m_score (score_row (row, r, f, m)) = m"
  "rfm_score (score_row (row, r, f, m)) = score_str r @ score_str f @ score_str m"
  "segment (score_row (row, r, f, m)) = segment_customer (score_str r @ score_str f @ score_str m) r"
  by (simp_all add: score_row_def Let_def)

lemma bin_id_extremes:
  assumes ne: "xs \<noteq> []" and d: "distinct (quartile_bins xs)" and x: "x \<in> set xs"
  shows "(\<forall>y\<in>set xs. x \<le> y) \<Longrightarrow> bin_id (quartile_bins xs) x = 1"
    and "(\<forall>y\<in>set xs. y \<le> x) \<Longrightarrow> bin_id (quartile_bins xs) x = 4"
proof -
  let ?b = "quartile_bins xs"
  let ?s = "sort xs"
  have sne: "?s \<noteq> []" by (rule sort_not_Nil[OF ne])
  {
    assume "\<forall>y\<in>set xs. x \<le> y"
    then have "x \<le> ?s ! 0" using sort_first_mem[OF ne] by blast
    with sort_first_le[OF x] have "x = ?b ! 0" by (simp add: bins_first)
    then show "bin_id ?b x = 1" by (simp add: bin_id_def)
  }
  {
    assume "\<forall>y\<in>set xs. y \<le> x"
    then have "?s ! (length xs - 1) \<le> x" using sort_last_mem[OF ne] by blast
    with sort_last_ge[OF x] have x4: "x = quantile_edge ?s 4"
      using quantile_edge_last[OF sne] by simp
    have le: "quantile_edge ?s j \<le> x" if "j \<le> 4" for j
    proof -
      have "quantile_edge ?s j \<le> ?s ! (min (j * (length ?s - 1) div 4 + 1) (length ?s - 1))"
        by (rule quantile_edge_bounds(2)[OF _ sne that]) simp
      also have "\<dots> \<le> ?s ! (length ?s - 1)"
        using edge_positions(2)[OF sne that] by (intro sorted_nth_mono) auto
      also have "\<dots> = x" using x4 quantile_edge_last[OF sne] by simp
      finally show ?thesis .
    qed
    from d have dl: "distinct [quantile_edge ?s 0, quantile_edge ?s 1, quantile_edge ?s 2,
                       quantile_edge ?s 3, quantile_edge ?s 4]"
      by (simp only: quartile_bins_list)
    have "quantile_edge ?s 0 < x" "quantile_edge ?s 1 < x" "quantile_edge ?s 2 < x" "quantile_edge ?s 3 < x"
      using le[of 0] le[of 1] le[of 2] le[of 3] dl x4 by auto
    moreover have "x \<noteq> ?b ! 0" using dl x4 by (auto simp: quartile_bins_nth)
    ultimately show "bin_id ?b x = 4"
      using x4 by (simp add: bin_id_def searchsorted_left_def quartile_bins_list)
  }
qed

subsection \<open>Where the recency \<open>qcut\<close> returns\<close>

text \<open>
  On a non-empty table whose five recency quantiles are distinct the block returns one
  record for every customer identifier that is not missing, in ascending order of the
  identifier; the composite score is the three scores side by side, and the segment is the
  first rule that matches, one of the four labels.
\<close>

lemma segment_customers_one_label_each:
  assumes "df \<noteq> []" and "distinct (quartile_bins (recencies df))"
  shows "\<exists>out. segment_customers df = Inr out \<and>
           map (\<lambda>s. customer (rfm s)) out = group_keys df \<and>
           distinct (group_keys df) \<and>
           set (group_keys df) = {k. \<exists>t\<in>set df. customer_id t = Some k} \<and>
           list_all (\<lambda>s.
               rfm_score s = score_str (r_score s) @ score_str (f_score s) @ score_str (m_score s) \<and>
               segment s =
                 (if rfm_score s \<in> {''444'', ''434'', ''443'', ''344''} then ''Champions''
                  else if r_score s = Some CHR ''4'' then ''New Users''
                  else if r_score s = Some CHR ''1'' then ''At Risk''
                  else ''Regular'') \<and>
               segment s \<in> {''Champions'', ''New Users'', ''At Risk'', ''Regular''}) out"
proof -
  let ?tab = "rfm_metrics df"
  let ?FM = "fm_scores (map frequency ?tab) (map monetary ?tab)"
  let ?R = "map (\<lambda>x. Some (''4321'' ! (bin_id (quartile_bins (recencies df)) x - 1))) (recencies df)"
  define Z where "Z = zip ?R (zip (fst ?FM) (snd ?FM))"
  define out where "out = map score_row (zip ?tab Z)"
  note S = segment_customers_Inr[OF assms]
  have seg: "segment_customers df = Inr out"
    using S(1) by (simp add: out_def Z_def)
  have lenZ: "length Z = length ?tab" using S(2-4) by (simp add: Z_def)
  have "map (\<lambda>s. customer (rfm s)) out = map customer (map fst (zip ?tab Z))"
    by (auto simp: out_def score_row_def Let_def)
  also have "\<dots> = group_keys df"
    using lenZ by (simp add: map_fst_zip customers_rfm_metrics)
  finally have cust: "map (\<lambda>s. customer (rfm s)) out = group_keys df" .
  have each: "rfm_score s = score_str (r_score s) @ score_str (f_score s) @ score_str (m_score s) \<and>
               segment s =
                 (if rfm_score s \<in> {''444'', ''434'', ''443'', ''344''} then ''Champions''
                  else if r_score s = Some CHR ''4'' then ''New Users''
                  else if r_score s = Some CHR ''1'' then ''At Risk''
                  else ''Regular'') \<and>
               segment s \<in> {''Champions'', ''New Users'', ''At Risk'', ''Regular''}"
    if "s \<in> set out" for s
  proof -
    from that obtain row r f m where s: "s = score_row (row, r, f, m)"
      by (auto simp: out_def)
    show ?thesis unfolding s rfm_score_row by (simp add: segment_customer_def)
  qed
  show ?thesis
    using seg cust distinct_group_keys[of df] set_group_keys[of df] each
    by (auto simp: list_all_iff)
qed

text \<open>
  On such a table the records carry the recencies of the aggregated frame; every customer
  with the smallest recency has the recency score \<open>'4'\<close> and every customer with the
  largest has \<open>'1'\<close>.
\<close>

lemma recency_extremes_scored:
  assumes "df \<noteq> []" and "distinct (quartile_bins (recencies df))"
  shows "\<exists>out. segment_customers df = Inr out \<and>
           map (\<lambda>s. recency (rfm s)) out = map recency (rfm_metrics df) \<and>
           list_all (\<lambda>s.
               (list_all (\<lambda>s'. recency (rfm s) \<le> recency (rfm s')) out \<longrightarrow> r_score s = Some CHR ''4'') \<and>
               (list_all (\<lambda>s'. recency (rfm s') \<le> recency (rfm s)) out \<longrightarrow> r_score s = Some CHR ''1''))
             out"
proof -
  define tab where "tab = rfm_metrics df"
  define recs where "recs = recencies df"
  define R where "R = map (\<lambda>x. Some (''4321'' ! (bin_id (quartile_bins recs) x - 1))) recs"
  define FM where "FM = fm_scores (map frequency tab) (map monetary tab)"
  define out where "out = map score_row (zip tab (zip R (zip (fst FM) (snd FM))))"
  have S: "segment_customers df = Inr out" "length R = length tab" "length (fst FM) = length tab"
    "length (snd FM) = length tab" "tab \<noteq> []"
    using segment_customers_Inr[OF assms] by (simp_all add: out_def tab_def recs_def R_def FM_def)
  have seg: "segment_customers df = Inr out" by (rule S(1))
  have recs: "recs = map (\<lambda>r. of_int (recency r)) tab" by (simp add: recs_def recencies_def tab_def)
  have ne: "recs \<noteq> []" using S(5) by (simp add: recs)
  have len: "length out = length tab" using S(2-4) by (simp add: out_def)
  have nth: "out ! i = score_row (tab ! i, R ! i, fst FM ! i, snd FM ! i)" if "i < length tab" for i
    unfolding out_def by (rule nth_scored[OF S(2-4) that])
  have rec_out: "map (\<lambda>s. recency (rfm s)) out = map recency tab"
    by (rule nth_equalityI) (simp_all add: len nth)
  have main: "(list_all (\<lambda>s'. recency (rfm s) \<le> recency (rfm s')) out \<longrightarrow> r_score s = Some CHR ''4'') \<and>
              (list_all (\<lambda>s'. recency (rfm s') \<le> recency (rfm s)) out \<longrightarrow> r_score s = Some CHR ''1'')"
    if "s \<in> set out" for s
  proof -
    from that obtain i where i: "i < length tab" and s: "s = out ! i"
      by (metis in_set_conv_nth len)
    let ?x = "recs ! i"
    have x: "?x = of_int (recency (tab ! i))" using i by (simp add: recs)
    have xm: "?x \<in> set recs" using i by (simp add: recs)
    have r: "r_score s = Some (''4321'' ! (bin_id (quartile_bins recs) ?x - 1))"
      using i by (simp add: s nth R_def recs)
    have rs: "recency (rfm s) = recency (tab ! i)" using i by (simp add: s nth)
    have all: "set (map recency tab) = (\<lambda>s. recency (rfm s)) ` set out"
      using rec_out by (metis set_map)
    have lo: "\<forall>y\<in>set recs. ?x \<le> y" if "list_all (\<lambda>s'. recency (rfm s) \<le> recency (rfm s')) out"
    proof
      fix y assume "y \<in> set recs"
      then obtain t where t: "t \<in> set tab" "y = of_int (recency t)" by (auto simp: recs)
      then have "recency t \<in> (\<lambda>s. recency (rfm s)) ` set out" using all by (metis image_eqI set_map)
      with that have "recency (rfm s) \<le> recency t" by (auto simp: list_all_iff)
      then show "?x \<le> y" by (simp add: x t rs)
    qed
    have hi: "\<forall>y\<in>set recs. y \<le> ?x" if "list_all (\<lambda>s'. recency (rfm s') \<le> recency (rfm s)) out"
    proof
      fix y assume "y \<in> set recs"
      then obtain t where t: "t \<in> set tab" "y = of_int (recency t)" by (auto simp: recs)
      then have "recency t \<in> (\<lambda>s. recency (rfm s)) ` set out" using all by (metis image_eqI set_map)
      with that have "recency t \<le> recency (rfm s)" by (auto simp: list_all_iff)
      then show "y \<le> ?x" by (simp add: x t rs)
    qed
    show ?thesis
      using bin_id_extremes[OF ne assms(2)[folded recs_def] xm] lo hi by (auto simp: r)
  qed
  show ?thesis using seg main rec_out by (auto simp: list_all_iff tab_def)
qed

subsection \<open>The claims about the segmenter\<close>

text \<open>
  Claim C1: a table with one customer does not raise, and the frequency and monetary
  scores fall back to \<open>'1'\<close>. The \<open>try\<close> block covers the frequency and the monetary
  \<open>qcut\<close> only (lemma \<open>fm_scores_fallback\<close>); the recency \<open>qcut\<close> stands before it.
  With one customer the five recency quantiles are equal and its \<open>ValueError\<close> leaves
  the block (lemma \<open>single_customer_raises\<close> has every table with one customer).
\<close>

theorem single_customer_segmentation_raises:
  "segment_customers single_order = Inl (ValueError ''Bin edges must be unique'')"
  by code_simp

text \<open>
  Claim C5: on every non-empty cleaned table the block returns one record for each
  customer, with one of the four labels, given by the first rule that matches. Where the
  block returns it does so (lemma \<open>segment_customers_one_label_each\<close>). On a table of
  two customers who ordered on the same day it returns nothing: the five recency quantiles
  are equal, and the \<open>ValueError\<close> of the recency \<open>qcut\<close>, which stands before the
  \<open>try\<close> block, leaves the block as it does under claim C1.
\<close>

theorem same_day_customers_segmentation_raises:
  "same_day_pair \<noteq> [] \<and>
   segment_customers same_day_pair = Inl (ValueError ''Bin edges must be unique'')"
  by code_simp

text \<open>
  Claim C6: with at least four distinct recency values the customer with the smallest
  recency has the recency score 4 and the one with the largest has 1. Where the recency
  \<open>qcut\<close> returns this is so (lemma \<open>recency_extremes_scored\<close>). Five customers with
  the recencies 1, 1, 2, 3, 4 have four distinct values and two equal quantiles: the
  recency \<open>qcut\<close> raises, uncaught as under claim C1, and no customer has a score.
\<close>

theorem four_recency_values_segmentation_raises:
  "remdups (recencies four_recencies) = [1, 2, 3, 4] \<and>
   segment_customers four_recencies = Inl (ValueError ''Bin edges must be unique'')"
  by code_simp




text \<open>
  A raise that leads out of the \<open>except\<close> branch: among the totals 10, 20, 40, 40, 50
  two quantiles are equal and every monetary score is \<open>'1'\<close>; with the third total
  raised to 45 the quantiles are distinct and its score is \<open>'3'\<close>.
\<close>

lemma m_score_rises_out_of_fallback:
  "snd (fm_scores [1, 1, 2, 1, 1] [10, 20, 40, 40, 50]) ! 2 = Some CHR ''1'' \<and>
   snd (fm_scores [1, 1, 2, 1, 1] ([10, 20, 40, 40, 50][2 := 45])) ! 2 = Some CHR ''3''"
  by code_simp

text \<open>
  Claim C9: every row of the aggregated frame has a recency of at least one day.
\<close>

theorem recency_at_least_one_day:
  assumes "r \<in> set (rfm_metrics df)"
  shows "1 \<le> recency r"
proof -
  from assms obtain k where k: "k \<in> set (group_keys df)"
    and r: "recency r = (snapshot_date df - Max (set (map order_date (group_rows k df)))) div ns_per_day"
    by (auto simp: rfm_metrics_def Let_def)
  show ?thesis unfolding r by (rule recency_ge_1[OF k])
qed

theorem recency_at_least_one_day_witness:
  "hd (rfm_metrics five_customers) \<in> set (rfm_metrics five_customers) \<and>
   1 \<le> recency (hd (rfm_metrics five_customers))"
proof -
  have h: "hd (rfm_metrics five_customers) \<in> set (rfm_metrics five_customers)" by code_simp
  show ?thesis using h recency_at_least_one_day[OF h] by blast
qed

section \<open>Properties of the weekly trend\<close>





subsection \<open>The claim about the trend\<close>




end
